theory Spec2Isabelle
  imports Main
begin

section \<open>Python values, exceptions and strings\<close>

text \<open>
  The values that flow through \<open>answer_question\<close> and \<open>chat\<close> of \<open>backend/main.py\<close>.
  A Python \<open>str\<close> is a \<open>string\<close>; one \<open>char\<close> stands for one code point (below 256), so
  \<open>length\<close> is Python's \<open>len\<close>. A \<open>dict\<close> with string keys is an association list in
  insertion order.
\<close>

datatype pyval = PNone | PBool bool | PInt int | PStr string

type_synonym dict = "(string \<times> pyval) list"

text \<open>
  Exceptions are values. Every constructor is a subclass of Python's \<open>Exception\<close>, which is
  the class the handlers of the source name. \<open>RequestsJSONDecodeError\<close> is the class of the
  \<open>requests\<close> library that derives from both \<open>RequestException\<close> and \<open>json.JSONDecodeError\<close>.
\<close>

datatype exn =
    RequestException string
  | JSONDecodeError string
  | RequestsJSONDecodeError string
  | IndexError string
  | KeyError string
  | AttributeError string
  | HTTPException nat pyval
  | OtherException string

fun is_RequestException :: "exn \<Rightarrow> bool" where
  "is_RequestException (RequestException m) = True"
| "is_RequestException (RequestsJSONDecodeError m) = True"
| "is_RequestException e = False"

fun is_JSONDecodeError :: "exn \<Rightarrow> bool" where
  "is_JSONDecodeError (JSONDecodeError m) = True"
| "is_JSONDecodeError (RequestsJSONDecodeError m) = True"
| "is_JSONDecodeError e = False"

text \<open>\<open>dict.get(key)\<close>: the value, or \<open>None\<close> when the key is absent.\<close>

definition dict_get :: "dict \<Rightarrow> string \<Rightarrow> pyval" where
  "dict_get d k = (case map_of d k of None \<Rightarrow> PNone | Some v \<Rightarrow> v)"

text \<open>\<open>dict[key]\<close>: the value, or \<open>KeyError\<close> when the key is absent.\<close>

definition dict_item :: "dict \<Rightarrow> string \<Rightarrow> exn + pyval" where
  "dict_item d k = (case map_of d k of None \<Rightarrow> Inl (KeyError k) | Some v \<Rightarrow> Inr v)"

text \<open>Truthiness, as \<open>not x\<close> reads it.\<close>

fun truthy :: "pyval \<Rightarrow> bool" where
  "truthy PNone = False"
| "truthy (PBool b) = b"
| "truthy (PInt i) = (i \<noteq> 0)"
| "truthy (PStr s) = (s \<noteq> [])"

text \<open>
  \<open>str.isspace\<close> on one code point below 256: TAB, LF, VT, FF, CR, the separators
  0x1C..0x1F, the space, NEL (0x85) and the no-break space (0xA0).
\<close>

definition py_isspace :: "char \<Rightarrow> bool" where
  "py_isspace c =
     (let n = (of_char c :: nat)
      in (9 \<le> n \<and> n \<le> 13) \<or> (28 \<le> n \<and> n \<le> 32) \<or> n = 133 \<or> n = 160)"

text \<open>\<open>str.strip()\<close> without argument: drop the whitespace at both ends.\<close>

definition py_strip :: "string \<Rightarrow> string" where
  "py_strip s = rev (dropWhile py_isspace (rev (dropWhile py_isspace s)))"

text \<open>The type name Python prints in an \<open>AttributeError\<close>.\<close>

fun type_name :: "pyval \<Rightarrow> string" where
  "type_name PNone = ''NoneType''"
| "type_name (PBool b) = ''bool''"
| "type_name (PInt i) = ''int''"
| "type_name (PStr s) = ''str''"

section \<open>The answering service: \<open>IslamicChatbot.answer_question\<close>\<close>

text \<open>
  What \<open>self.qa_chain.invoke({"query": question})\<close> can do: raise, return a dict, or return
  an object that is not a dict (kept as its \<open>str()\<close>).
\<close>

datatype chain_response = Raises exn | ReturnsDict dict | ReturnsOther string

text \<open>
  The chatbot object, as far as \<open>answer_question\<close> reads it: \<open>qa_chain\<close> is \<open>None\<close> until
  \<open>setup_qa_chain\<close> has run. \<open>invoked\<close> is the log of the queries the chain (retrieval and
  generation) has been called with.
\<close>

record chatbot =
  qa_chain :: "(string \<Rightarrow> chain_response) option"
  invoked :: "string list"

definition error_result :: "string \<Rightarrow> dict" where
  "error_result m = [(''error'', PStr m), (''status'', PStr ''error'')]"

definition success_result :: "pyval \<Rightarrow> dict" where
  "success_result a = [(''answer'', a), (''status'', PStr ''success'')]"

text \<open>\<open>response['result'] if isinstance(response, dict) else str(response)\<close>\<close>

definition extract_answer :: "chain_response \<Rightarrow> exn + pyval" where
  "extract_answer r =
     (case r of
        Raises e \<Rightarrow> Inl e
      | ReturnsDict d \<Rightarrow> dict_item d ''result''
      | ReturnsOther s \<Rightarrow> Inr (PStr s))"

text \<open>
  \<open>not answer or len(answer.strip()) < 10\<close>: a falsy answer is invalid without a call of
  \<open>strip\<close>; a truthy answer that is not a \<open>str\<close> has no \<open>strip\<close>.
\<close>

definition answer_invalid :: "pyval \<Rightarrow> exn + bool" where
  "answer_invalid answer =
     (if \<not> truthy answer then Inr True
      else case answer of
             PStr s \<Rightarrow> Inr (length (py_strip s) < 10)
           | _ \<Rightarrow> Inl (AttributeError (type_name answer)))"

text \<open>The body of the \<open>try\<close> block of \<open>answer_question\<close>.\<close>

definition answer_try ::
  "(string \<Rightarrow> chain_response) \<Rightarrow> chatbot \<Rightarrow> string \<Rightarrow> (exn + dict) \<times> chatbot" where
  "answer_try chain self question =
     (if py_strip question = [] then
        (Inr (error_result ''Please provide a valid question.''), self)
      else
        let self' = self\<lparr>invoked := invoked self @ [question]\<rparr> in
        case extract_answer (chain question) of
          Inl e \<Rightarrow> (Inl e, self')
        | Inr answer \<Rightarrow>
            (case answer_invalid answer of
               Inl e \<Rightarrow> (Inl e, self')
             | Inr True \<Rightarrow>
                 (Inr (error_result ''Generated response was invalid or too short.''), self')
             | Inr False \<Rightarrow> (Inr (success_result answer), self')))"

text \<open>
  \<open>answer_question\<close>. The first parameter is Python's \<open>str()\<close> on an exception object,
  which the exception classes define, not this repository. The result type has room for
  an exception that escapes, so that "never raises" is a statement about the function.
\<close>

definition answer_question ::
  "(exn \<Rightarrow> string) \<Rightarrow> chatbot \<Rightarrow> string \<Rightarrow> (exn + dict) \<times> chatbot" where
  "answer_question str_exn self question =
     (case qa_chain self of
        None \<Rightarrow>
          (Inr (error_result ''QA chain not initialized. Please call setup_qa_chain() first.''),
           self)
      | Some chain \<Rightarrow>
          (case answer_try chain self question of
             (Inl e, self') \<Rightarrow>
               (Inr (error_result (''An error occurred: '' @ str_exn e)), self')
           | (Inr d, self') \<Rightarrow> (Inr d, self')))"

section \<open>The HTTP endpoint: \<open>chat\<close>\<close>

text \<open>
  The body of the \<open>try\<close> block of \<open>chat\<close>: the answer dict on success, otherwise
  \<open>raise HTTPException(status_code=400, detail=response.get("error"))\<close>.
\<close>

definition chat_try ::
  "(exn \<Rightarrow> string) \<Rightarrow> chatbot \<Rightarrow> string \<Rightarrow> (exn + dict) \<times> chatbot" where
  "chat_try str_exn self question =
     (case answer_question str_exn self question of
        (Inl e, self') \<Rightarrow> (Inl e, self')
      | (Inr response, self') \<Rightarrow>
          (if dict_get response ''status'' = PStr ''success'' then
             (case dict_item response ''answer'' of
                Inl e \<Rightarrow> (Inl e, self')
              | Inr a \<Rightarrow> (Inr [(''answer'', a)], self'))
           else (Inl (HTTPException 400 (dict_get response ''error'')), self')))"

text \<open>
  \<open>chat\<close>: the \<open>except Exception as e\<close> clause encloses the whole body, the
  \<open>raise HTTPException(400, ...)\<close> included, and \<open>HTTPException\<close> is an \<open>Exception\<close>.
  \<open>Inl (HTTPException c d)\<close> is the response with status \<open>c\<close> and detail \<open>d\<close>.
\<close>

definition chat ::
  "(exn \<Rightarrow> string) \<Rightarrow> chatbot \<Rightarrow> string \<Rightarrow> (exn + dict) \<times> chatbot" where
  "chat str_exn self question =
     (case chat_try str_exn self question of
        (Inl e, self') \<Rightarrow> (Inl (HTTPException 500 (PStr (str_exn e))), self')
      | (Inr d, self') \<Rightarrow> (Inr d, self'))"

section \<open>The outside world: HTTP requests and time\<close>

text \<open>
  \<open>requests.get(url, params=..., headers=..., timeout=...)\<close> and \<open>time.sleep(n)\<close> are the
  effects of the ingestion code. Each one is an event appended to a chronological trace.
\<close>

record request =
  url :: string
  params :: dict
  headers :: "(string \<times> string) list"
  timeout :: nat

datatype event = Get request | Sleep nat

text \<open>
  What a request comes back with: \<open>requests.get\<close> raises, or returns a response with a
  \<open>status_code\<close> and the outcome of \<open>response.json()\<close> (which may raise). The payload type
  \<open>'a\<close> is the part of the decoded JSON that the calling code reads.
\<close>

datatype 'a reply = Fails exn | Response nat "exn + 'a"

text \<open>
  The network is any function of the history so far and of the request: the most general
  deterministic server.
\<close>

type_synonym 'a net = "event list \<Rightarrow> request \<Rightarrow> 'a reply"

text \<open>The state the fetch loops mutate: the \<open>documents\<close> list, and the trace.\<close>

record fetch_state =
  documents :: "string list"
  events :: "event list"

definition emit :: "event \<Rightarrow> ('z fetch_state_scheme) \<Rightarrow> ('z fetch_state_scheme)" where
  "emit e st = st\<lparr>events := events st @ [e]\<rparr>"

section \<open>Control flow of loop bodies\<close>

text \<open>
  How a block of statements ends: it reaches its end or executes \<open>continue\<close> (both go on
  with the next iteration), or executes \<open>break\<close>, \<open>return\<close>, or raises.
\<close>

datatype 's flow = Continue 's | Break 's | Return 's | Raise exn 's

text \<open>\<open>for x in xs: body\<close>. The loop statement itself ends normally, returns or raises.\<close>

fun for_each :: "('x \<Rightarrow> 's \<Rightarrow> 's flow) \<Rightarrow> 'x list \<Rightarrow> 's \<Rightarrow> 's flow" where
  "for_each body [] st = Continue st"
| "for_each body (x # xs) st =
     (case body x st of
        Continue st' \<Rightarrow> for_each body xs st'
      | Break st' \<Rightarrow> Continue st'
      | Return st' \<Rightarrow> Return st'
      | Raise e st' \<Rightarrow> Raise e st')"

text \<open>
  \<open>while True: body\<close>. The loop may run forever: \<open>None\<close> is "does not return".
\<close>

partial_function (option) while_true :: "('s \<Rightarrow> 's flow) \<Rightarrow> 's \<Rightarrow> 's flow option" where
  "while_true body st =
     (case body st of
        Continue st' \<Rightarrow> while_true body st'
      | Break st' \<Rightarrow> Some (Continue st')
      | Return st' \<Rightarrow> Some (Return st')
      | Raise e st' \<Rightarrow> Some (Raise e st'))"

section \<open>Formatting\<close>

text \<open>\<open>str(n)\<close> of a non-negative integer, as an f-string prints it.\<close>

fun str_nat :: "nat \<Rightarrow> string" where
  "str_nat n =
     (if n < 10 then [''0123456789'' ! n]
      else str_nat (n div 10) @ [''0123456789'' ! (n mod 10)])"

declare str_nat.simps [simp del]

definition newline :: string where
  "newline = [CHR 0x0A]"

text \<open>\<open>list[i]\<close> for \<open>i \<ge> 0\<close>: \<open>IndexError\<close> out of range.\<close>

definition list_index :: "'a list \<Rightarrow> nat \<Rightarrow> exn + 'a" where
  "list_index xs i =
     (if i < length xs then Inr (xs ! i) else Inl (IndexError ''list index out of range''))"

text \<open>
  A JSON object whose values are kept as the text \<open>str()\<close> gives for them, and
  \<open>obj.get(key, default)\<close> on it.
\<close>

type_synonym json_obj = "(string \<times> string) list"

definition get_default :: "json_obj \<Rightarrow> string \<Rightarrow> string \<Rightarrow> string" where
  "get_default obj k dflt = (case map_of obj k of None \<Rightarrow> dflt | Some v \<Rightarrow> v)"

section \<open>The Quran fetch of \<open>load_data\<close>\<close>

text \<open>
  The payload of the Quran API is \<open>data['data']\<close>: the list of editions, each one the list
  of the \<open>text\<close> of its ayahs. Edition 0 is the original text, edition 1 the translation.
\<close>

type_synonym editions = "string list list"

definition quran_request :: "nat \<Rightarrow> request" where
  "quran_request surah =
     \<lparr>url = ''http://api.alquran.cloud/v1/surah/'' @ str_nat surah
              @ ''/editions/quran-uthmani,en.asad'',
      params = [], headers = [], timeout = 10\<rparr>"

definition format_verse :: "nat \<Rightarrow> nat \<Rightarrow> string \<Rightarrow> string \<Rightarrow> string" where
  "format_verse surah ayah_idx arabic_text english_text =
     ''Quran '' @ str_nat surah @ '':'' @ str_nat ayah_idx @ newline
     @ ''Arabic: '' @ arabic_text @ newline
     @ ''English: '' @ english_text"

text \<open>
  \<open>for ayah_idx, ayah in enumerate(data['data'][0]['ayahs'], 1)\<close>: the remaining ayahs of
  edition 0 with the running index; the translation is read at \<open>ayah_idx - 1\<close> of
  edition 1, with no check of its length.
\<close>

fun pair_ayahs ::
  "nat \<Rightarrow> editions \<Rightarrow> nat \<Rightarrow> string list \<Rightarrow> string list \<Rightarrow> exn + string list" where
  "pair_ayahs surah eds ayah_idx [] docs = Inr docs"
| "pair_ayahs surah eds ayah_idx (arabic_text # rest) docs =
     (case list_index eds 1 of
        Inl e \<Rightarrow> Inl e
      | Inr translation \<Rightarrow>
          (case list_index translation (ayah_idx - 1) of
             Inl e \<Rightarrow> Inl e
           | Inr english_text \<Rightarrow>
               pair_ayahs surah eds (ayah_idx + 1) rest
                 (docs @ [format_verse surah ayah_idx arabic_text english_text])))"

text \<open>The statements under \<open>if response.status_code == 200\<close>, up to the \<open>break\<close>.\<close>

definition quran_success :: "nat \<Rightarrow> editions \<Rightarrow> string list \<Rightarrow> exn + string list" where
  "quran_success surah eds docs =
     (case list_index eds 0 of
        Inl e \<Rightarrow> Inl e
      | Inr ayahs \<Rightarrow> pair_ayahs surah eds 1 ayahs docs)"

text \<open>
  The retry step shared by the \<open>else\<close> branch and the handler:
  \<open>if attempt < max_retries - 1: time.sleep(retry_delay); continue\<close>, and otherwise the
  end of the loop body.
\<close>

definition quran_retry :: "nat \<Rightarrow> nat \<Rightarrow> nat \<Rightarrow> fetch_state \<Rightarrow> fetch_state flow" where
  "quran_retry max_retries retry_delay attempt st =
     (if attempt < max_retries - 1 then Continue (emit (Sleep retry_delay) st)
      else Continue st)"

text \<open>\<open>except requests.exceptions.RequestException\<close>: any other exception propagates.\<close>

definition quran_except ::
  "nat \<Rightarrow> nat \<Rightarrow> nat \<Rightarrow> exn \<Rightarrow> fetch_state \<Rightarrow> fetch_state flow" where
  "quran_except max_retries retry_delay attempt e st =
     (if is_RequestException e then quran_retry max_retries retry_delay attempt st
      else Raise e st)"

text \<open>
  One iteration of \<open>for attempt in range(max_retries)\<close> for a surah. An exception of the
  pairing is never a \<open>RequestException\<close>: it propagates, and the documents appended
  before it are lost with the list that \<open>load_data\<close> drops.
\<close>

definition quran_attempt ::
  "editions net \<Rightarrow> nat \<Rightarrow> nat \<Rightarrow> nat \<Rightarrow> nat \<Rightarrow> fetch_state \<Rightarrow> fetch_state flow" where
  "quran_attempt net max_retries retry_delay surah attempt st =
     (let st1 = emit (Get (quran_request surah)) st in
      case net (events st) (quran_request surah) of
        Fails e \<Rightarrow> quran_except max_retries retry_delay attempt e st1
      | Response status_code body \<Rightarrow>
          if status_code = 200 then
            (case body of
               Inl e \<Rightarrow> quran_except max_retries retry_delay attempt e st1
             | Inr eds \<Rightarrow>
                 (case quran_success surah eds (documents st1) of
                    Inl e \<Rightarrow> quran_except max_retries retry_delay attempt e st1
                  | Inr docs \<Rightarrow> Break (st1\<lparr>documents := docs\<rparr>)))
          else quran_retry max_retries retry_delay attempt st1)"

text \<open>The fetch unit of one surah: the whole \<open>for attempt\<close> loop.\<close>

definition quran_surah ::
  "editions net \<Rightarrow> nat \<Rightarrow> nat \<Rightarrow> nat \<Rightarrow> fetch_state \<Rightarrow> fetch_state flow" where
  "quran_surah net max_retries retry_delay surah st =
     for_each (quran_attempt net max_retries retry_delay surah) [0..<max_retries] st"

text \<open>\<open>for surah in range(1, total_surahs + 1)\<close> with \<open>total_surahs = 114\<close>.\<close>

definition load_quran ::
  "editions net \<Rightarrow> nat \<Rightarrow> nat \<Rightarrow> fetch_state \<Rightarrow> fetch_state flow" where
  "load_quran net max_retries retry_delay st =
     for_each (quran_surah net max_retries retry_delay) [1..<114 + 1] st"

section \<open>The helper \<open>fetch_all_hadiths\<close>\<close>

text \<open>
  The payload of the paginated endpoint is \<open>data.get('hadiths', [])\<close>: the list of the
  hadiths of the page. A value of a hadith object is \<open>null\<close>, a string, or any other JSON
  value, kept with the name of its Python type and the text \<open>str()\<close> gives for it. An
  element of the list is an object, or any other JSON value, kept with the name of its
  type.
\<close>

datatype jval = JNull | JStr string | JOther string string

datatype hadith_json = HadithObject "(string \<times> jval) list" | HadithOther string

text \<open>\<open>obj.get(key, default)\<close> with a string default.\<close>

definition jget :: "(string \<times> jval) list \<Rightarrow> string \<Rightarrow> string \<Rightarrow> jval" where
  "jget obj k dflt = (case map_of obj k of None \<Rightarrow> JStr dflt | Some v \<Rightarrow> v)"

text \<open>A value in an f-string.\<close>

fun jstr :: "jval \<Rightarrow> string" where
  "jstr JNull = ''None''"
| "jstr (JStr s) = s"
| "jstr (JOther t s) = s"

text \<open>
  \<open>str.lower\<close> and \<open>str.upper\<close> are functions of the Python runtime (the case mapping of
  Unicode); the model takes them as a parameter.
\<close>

record py_str =
  str_lower :: "string \<Rightarrow> string"
  str_upper :: "string \<Rightarrow> string"

text \<open>\<open>value.lower()\<close>: only a \<open>str\<close> has the method.\<close>

fun jlower :: "py_str \<Rightarrow> jval \<Rightarrow> exn + string" where
  "jlower py (JStr s) = Inr (str_lower py s)"
| "jlower py JNull = Inl (AttributeError ''NoneType'')"
| "jlower py (JOther t s) = Inl (AttributeError t)"

text \<open>
  The state of the helper adds \<open>page\<close> to the documents and the trace. \<open>max_retries\<close> and
  \<open>retry_delay\<close> are parameters of the helper; they are taken as non-negative.
\<close>

record page_state = fetch_state +
  page :: nat

definition page_request :: "string \<Rightarrow> string \<Rightarrow> nat \<Rightarrow> request" where
  "page_request collection api_key pg =
     \<lparr>url = ''https://www.hadithapi.com/public/api/hadiths'',
      params = [(''apiKey'', PStr api_key),
                (''book'', PStr collection),
                (''status'', PStr ''sahih,hasan''),
                (''paginate'', PInt 25),
                (''page'', PInt (int pg))],
      headers = [], timeout = 10\<rparr>"

text \<open>
  The extraction and formatting of one hadith. \<open>hadith.get\<close> raises on an element that
  is not an object, and \<open>.lower()\<close> raises on a status that is not a string.
\<close>

definition format_hadith :: "py_str \<Rightarrow> string \<Rightarrow> hadith_json \<Rightarrow> exn + string" where
  "format_hadith py collection hadith =
     (case hadith of
        HadithOther t \<Rightarrow> Inl (AttributeError t)
      | HadithObject obj \<Rightarrow>
          (let hadith_number = jget obj ''hadithNumber'' ''N/A'';
               chapter = jget obj ''chapter'' ''N/A''
           in case jlower py (jget obj ''status'' []) of
                Inl e \<Rightarrow> Inl e
              | Inr status \<Rightarrow>
                  (let arabic = jget obj ''hadithArabic'' [];
                       english = jget obj ''hadithEnglish'' []
                   in Inr (''Hadith: '' @ collection @ newline
                           @ ''Grade: '' @ str_upper py status @ newline
                           @ ''Number: '' @ jstr hadith_number @ newline
                           @ ''Chapter: '' @ jstr chapter @ newline
                           @ ''Arabic: '' @ jstr arabic @ newline
                           @ ''English: '' @ jstr english))))"

text \<open>
  \<open>for hadith in hadiths\<close>: each text is appended to \<open>documents\<close> as soon as it is built.
  When the extraction of a hadith raises, the loop ends with the exception and the texts
  appended before it stay in \<open>documents\<close>.
\<close>

fun add_hadiths ::
  "(hadith_json \<Rightarrow> exn + string) \<Rightarrow> hadith_json list \<Rightarrow> page_state
     \<Rightarrow> exn option \<times> page_state" where
  "add_hadiths fmt [] st = (None, st)"
| "add_hadiths fmt (hadith # rest) st =
     (case fmt hadith of
        Inl e \<Rightarrow> (Some e, st)
      | Inr text \<Rightarrow> add_hadiths fmt rest (st\<lparr>documents := documents st @ [text]\<rparr>))"

text \<open>
  \<open>if attempt < max_retries - 1: time.sleep(retry_delay); continue\<close> followed by
  \<open>return documents\<close>: the same two statements end the \<open>else\<close> branch and the handler
  \<open>except Exception\<close>, which catches every exception of the \<open>try\<close> block.
\<close>

definition page_retry :: "nat \<Rightarrow> nat \<Rightarrow> nat \<Rightarrow> page_state \<Rightarrow> page_state flow" where
  "page_retry max_retries retry_delay attempt st =
     (if attempt < max_retries - 1 then Continue (emit (Sleep retry_delay) st)
      else Return st)"

text \<open>
  One iteration of \<open>for attempt in range(max_retries)\<close> for the current page. An
  exception of the extraction is handled like every other: the page number is unchanged,
  so the retry asks for the same page again.
\<close>

definition page_attempt ::
  "py_str \<Rightarrow> hadith_json list net \<Rightarrow> string \<Rightarrow> string \<Rightarrow> nat \<Rightarrow> nat \<Rightarrow> nat \<Rightarrow> page_state
     \<Rightarrow> page_state flow" where
  "page_attempt py net collection api_key max_retries retry_delay attempt st =
     (let req = page_request collection api_key (page st);
          st1 = emit (Get req) st
      in case net (events st) req of
           Fails e \<Rightarrow> page_retry max_retries retry_delay attempt st1
         | Response status_code body \<Rightarrow>
             if status_code = 200 then
               (case body of
                  Inl e \<Rightarrow> page_retry max_retries retry_delay attempt st1
                | Inr hadiths \<Rightarrow>
                    if hadiths = [] then Return st1
                    else
                      (case add_hadiths (format_hadith py collection) hadiths st1 of
                         (Some e, st2) \<Rightarrow> page_retry max_retries retry_delay attempt st2
                       | (None, st2) \<Rightarrow>
                           Break (emit (Sleep 1) (st2\<lparr>page := page st2 + 1\<rparr>))))
             else if status_code = 401 then Return st1
             else if status_code = 403 then Return st1
             else if status_code = 404 then Return st1
             else page_retry max_retries retry_delay attempt st1)"

text \<open>The fetch unit of one page: the whole \<open>for attempt\<close> loop.\<close>

definition page_unit ::
  "py_str \<Rightarrow> hadith_json list net \<Rightarrow> string \<Rightarrow> string \<Rightarrow> nat \<Rightarrow> nat \<Rightarrow> page_state
     \<Rightarrow> page_state flow" where
  "page_unit py net collection api_key max_retries retry_delay st =
     for_each (page_attempt py net collection api_key max_retries retry_delay)
       [0..<max_retries] st"

text \<open>
  \<open>fetch_all_hadiths\<close>, started after the history \<open>evs\<close>. \<open>Some (Return st)\<close> is
  \<open>return documents\<close> with the documents of \<open>st\<close>; \<open>None\<close> is a call that never returns.
\<close>

definition fetch_all_hadiths ::
  "py_str \<Rightarrow> hadith_json list net \<Rightarrow> string \<Rightarrow> string \<Rightarrow> nat \<Rightarrow> nat \<Rightarrow> event list
     \<Rightarrow> page_state flow option" where
  "fetch_all_hadiths py net collection api_key max_retries retry_delay evs =
     while_true (page_unit py net collection api_key max_retries retry_delay)
       \<lparr>documents = [], events = evs, page = 1\<rparr>"

section \<open>The hadith fetch of \<open>load_data\<close>\<close>

text \<open>
  The payload of the endpoint that \<open>load_data\<close> itself calls is
  \<open>data.get('hadiths', {}).get('data', [])\<close>. A hadith of that list carries its
  own fields and the nested objects \<open>book\<close> and \<open>chapter\<close> (absent: read as \<open>{}\<close>);
  \<open>Inl e\<close> is an entry on which the extraction raises \<open>e\<close>.
\<close>

record hadith_entry =
  attrs :: json_obj
  book_obj :: "json_obj option"
  chapter_obj :: "json_obj option"

definition hadith_request :: "string \<Rightarrow> string \<Rightarrow> request" where
  "hadith_request hadith_api_key collection =
     \<lparr>url = ''https://www.hadithapi.com/api/hadiths'' @ ''?apiKey='' @ hadith_api_key,
      params = [(''apiKey'', PStr hadith_api_key),
                (''book'', PStr collection),
                (''status'', PStr ''sahih'')],
      headers = [(''Accept'', ''application/json''),
                 (''Content-Type'', ''application/json'')],
      timeout = 10\<rparr>"

definition format_entry :: "string \<Rightarrow> hadith_entry \<Rightarrow> string" where
  "format_entry collection hadith =
     (let book_info = (case book_obj hadith of None \<Rightarrow> [] | Some b \<Rightarrow> b);
          book_name = get_default book_info ''bookName'' collection;
          writer_name = get_default book_info ''writerName'' ''N/A'';
          chapter_info = (case chapter_obj hadith of None \<Rightarrow> [] | Some c \<Rightarrow> c);
          chapter_number = get_default chapter_info ''chapterNumber'' ''N/A'';
          chapter_english = get_default chapter_info ''chapterEnglish'' ''N/A'';
          chapter_arabic = get_default chapter_info ''chapterArabic'' ''N/A'';
          h = attrs hadith
      in ''Hadith: '' @ book_name @ newline
         @ ''Writer: '' @ writer_name @ newline
         @ ''Grade: '' @ get_default h ''status'' ''N/A'' @ newline
         @ ''Volume: '' @ get_default h ''volume'' ''N/A'' @ newline
         @ ''Number: '' @ get_default h ''hadithNumber'' ''N/A'' @ newline
         @ ''Chapter: '' @ chapter_number @ '' - '' @ chapter_english @ newline
         @ ''Chapter (Arabic): '' @ chapter_arabic @ newline
         @ ''Heading: '' @ get_default h ''headingEnglish'' [] @ newline
         @ ''Heading (Arabic): '' @ get_default h ''headingArabic'' [] @ newline
         @ ''Narrator: '' @ get_default h ''englishNarrator'' [] @ newline
         @ ''Arabic: '' @ get_default h ''hadithArabic'' [] @ newline
         @ ''English: '' @ get_default h ''hadithEnglish'' [] @ newline
         @ ''Reference: '' @ book_name @ '' Volume '' @ get_default h ''volume'' ''N/A''
         @ '', Hadith '' @ get_default h ''hadithNumber'' ''N/A'')"

text \<open>
  The body of \<open>for hadith in hadiths\<close>: append the text, or skip the entry when the
  extraction raises (\<open>except Exception: continue\<close>).
\<close>

definition add_entry ::
  "string \<Rightarrow> exn + hadith_entry \<Rightarrow> fetch_state \<Rightarrow> fetch_state flow" where
  "add_entry collection hadith st =
     (case hadith of
        Inl e \<Rightarrow> Continue st
      | Inr h \<Rightarrow> Continue (st\<lparr>documents := documents st @ [format_entry collection h]\<rparr>))"

text \<open>
  The body of \<open>for collection in collections\<close>: one request, with no \<open>page\<close> parameter and
  no retry loop. An exception of \<open>requests.get\<close> is not handled here; of the exceptions of
  \<open>response.json()\<close> only \<open>json.JSONDecodeError\<close> is.
\<close>

definition load_collection ::
  "(exn + hadith_entry) list net \<Rightarrow> string \<Rightarrow> string \<Rightarrow> fetch_state \<Rightarrow> fetch_state flow" where
  "load_collection net hadith_api_key collection st =
     (let req = hadith_request hadith_api_key collection;
          st1 = emit (Get req) st
      in case net (events st) req of
           Fails e \<Rightarrow> Raise e st1
         | Response status_code body \<Rightarrow>
             if status_code = 200 then
               (case body of
                  Inl e \<Rightarrow> if is_JSONDecodeError e then Continue st1 else Raise e st1
                | Inr hadiths \<Rightarrow>
                    if hadiths = [] then Continue st1
                    else for_each (add_entry collection) hadiths st1)
             else if status_code = 401 then Continue st1
             else if status_code = 403 then Continue st1
             else if status_code = 404 then Continue st1
             else Continue st1)"

definition collections :: "string list" where
  "collections = [''sahih-bukhari'', ''sahih-muslim'']"

definition load_hadith ::
  "(exn + hadith_entry) list net \<Rightarrow> string \<Rightarrow> fetch_state \<Rightarrow> fetch_state flow" where
  "load_hadith net hadith_api_key st =
     for_each (load_collection net hadith_api_key) collections st"

section \<open>\<open>load_data\<close>\<close>

text \<open>
  \<open>load_data\<close> with its environment: the two APIs, the value of
  \<open>os.getenv('HADITH_API_KEY')\<close>, and the construction of the vector store from the
  documents (the text splitter and \<open>Chroma.from_documents\<close>, which may raise). The result
  is the exception that \<open>load_data\<close> raises (both handlers re-raise), or the store it
  assigned to \<open>self.vector_store\<close> (\<open>None\<close> after the early \<open>return\<close>), with the trace.
\<close>

definition load_data ::
  "editions net \<Rightarrow> (exn + hadith_entry) list net \<Rightarrow> string option
     \<Rightarrow> (string list \<Rightarrow> exn + 'v) \<Rightarrow> (exn + 'v option) \<times> event list" where
  "load_data quran_net hadith_net getenv_key create_store =
     (let max_retries = 3; retry_delay = 2 in
      case load_quran quran_net max_retries retry_delay \<lparr>documents = [], events = []\<rparr> of
        Raise e st \<Rightarrow> (Inl e, events st)
      | Return st \<Rightarrow> (Inr None, events st)
      | Break st \<Rightarrow> (Inr None, events st)
      | Continue st \<Rightarrow>
          (case getenv_key of
             None \<Rightarrow> (Inr None, events st)
           | Some hadith_api_key \<Rightarrow>
               if hadith_api_key = [] then (Inr None, events st)
               else
                 (case load_hadith hadith_net hadith_api_key st of
                    Raise e st' \<Rightarrow> (Inl e, events st')
                  | Return st' \<Rightarrow> (Inr None, events st')
                  | Break st' \<Rightarrow> (Inr None, events st')
                  | Continue st' \<Rightarrow>
                      (case create_store (documents st') of
                         Inl e \<Rightarrow> (Inl e, events st')
                       | Inr v \<Rightarrow> (Inr (Some v), events st')))))"

declare while_true.simps [code]

section \<open>Observations on a run\<close>

text \<open>The requests of a trace, in order, and the state a block ends in.\<close>

fun requests_of :: "event list \<Rightarrow> request list" where
  "requests_of [] = []"
| "requests_of (Get r # es) = r # requests_of es"
| "requests_of (Sleep n # es) = requests_of es"

fun flow_state :: "'s flow \<Rightarrow> 's" where
  "flow_state (Continue st) = st"
| "flow_state (Break st) = st"
| "flow_state (Return st) = st"
| "flow_state (Raise e st) = st"

text \<open>
  A transient error in the spec's words: a network failure, or a non-2xx status other
  than 401, 403 and 404.
\<close>

fun spec_transient :: "'a reply \<Rightarrow> bool" where
  "spec_transient (Fails e) = is_RequestException e"
| "spec_transient (Response status_code body) =
     ((status_code < 200 \<or> 300 \<le> status_code)
      \<and> status_code \<noteq> 401 \<and> status_code \<noteq> 403 \<and> status_code \<noteq> 404)"

section \<open>Example environments\<close>

text \<open>
  Concrete collaborators for the examples: a \<open>str()\<close> on exceptions with the message
  texts of CPython and of Starlette's \<open>HTTPException\<close>, a chain that answers every query
  with one text, a server that gives every request the same reply, a server that follows
  a script, a server that serves numbered pages, and a vector store that keeps the
  documents as they are.
\<close>

fun py_str_exn :: "exn \<Rightarrow> string" where
  "py_str_exn (RequestException m) = m"
| "py_str_exn (JSONDecodeError m) = m"
| "py_str_exn (RequestsJSONDecodeError m) = m"
| "py_str_exn (IndexError m) = m"
| "py_str_exn (KeyError k) = [CHR 0x27] @ k @ [CHR 0x27]"
| "py_str_exn (AttributeError t) =
     [CHR 0x27] @ t @ [CHR 0x27] @ '' object has no attribute ''
     @ [CHR 0x27] @ ''strip'' @ [CHR 0x27]"
| "py_str_exn (HTTPException c d) =
     str_nat c @ '': '' @ (case d of PStr s \<Rightarrow> s | _ \<Rightarrow> ''None'')"
| "py_str_exn (OtherException m) = m"

definition fixed_chain :: "string \<Rightarrow> string \<Rightarrow> chain_response" where
  "fixed_chain a q = ReturnsDict [(''result'', PStr a)]"

definition ready_bot :: "string \<Rightarrow> chatbot" where
  "ready_bot a = \<lparr>qa_chain = Some (fixed_chain a), invoked = []\<rparr>"

definition unready_bot :: chatbot where
  "unready_bot = \<lparr>qa_chain = None, invoked = []\<rparr>"

definition always :: "'a reply \<Rightarrow> 'a net" where
  "always r h q = r"

definition scripted :: "'a reply list \<Rightarrow> 'a reply \<Rightarrow> 'a net" where
  "scripted rs dflt h q =
     (let i = length (requests_of h) in if i < length rs then rs ! i else dflt)"

definition page_server :: "(nat \<Rightarrow> hadith_json list) \<Rightarrow> hadith_json list net" where
  "page_server pages h q =
     (case dict_get (params q) ''page'' of
        PInt p \<Rightarrow> Response 200 (Inr (pages (nat p)))
      | _ \<Rightarrow> Response 400 (Inr []))"

text \<open>
  A case mapping for the examples: the letters A to Z and a to z are mapped, every other
  character is kept. It agrees with Python on ASCII text.
\<close>

definition ascii_case :: py_str where
  "ascii_case =
     \<lparr>str_lower = map (\<lambda>c. case map_of (zip ''ABCDEFGHIJKLMNOPQRSTUVWXYZ''
                                              ''abcdefghijklmnopqrstuvwxyz'') c of
                               None \<Rightarrow> c | Some d \<Rightarrow> d),
      str_upper = map (\<lambda>c. case map_of (zip ''abcdefghijklmnopqrstuvwxyz''
                                              ''ABCDEFGHIJKLMNOPQRSTUVWXYZ'') c of
                               None \<Rightarrow> c | Some d \<Rightarrow> d)\<rparr>"

text \<open>Two pages of one hadith each, and the texts the helper makes of them.\<close>

definition two_pages :: "nat \<Rightarrow> hadith_json list" where
  "two_pages p =
     (if p \<le> 2 then [HadithObject [(''hadithNumber'', JStr (str_nat p)),
                                     (''status'', JStr ''Sahih'')]]
      else [])"

definition two_texts :: "nat \<Rightarrow> string list" where
  "two_texts p =
     (if p \<le> 2 then
        [''Hadith: sahih-bukhari'' @ [CHR 0x0A] @ ''Grade: SAHIH'' @ [CHR 0x0A]
         @ ''Number: '' @ str_nat p @ [CHR 0x0A] @ ''Chapter: N/A'' @ [CHR 0x0A]
         @ ''Arabic: '' @ [CHR 0x0A] @ ''English: '']
      else [])"

definition one_entry :: hadith_entry where
  "one_entry = \<lparr>attrs = [(''hadithNumber'', ''1''), (''status'', ''Sahih'')],
                 book_obj = None, chapter_obj = None\<rparr>"

definition keep_documents :: "string list \<Rightarrow> exn + string list" where
  "keep_documents docs = Inr docs"

definition start :: fetch_state where
  "start = \<lparr>documents = [], events = []\<rparr>"


text \<open>
  A hadith API that answers a request it sees for the first time with 503, and a request
  it has seen before with 200 and one hadith.
\<close>

definition down_then_up :: "(exn + hadith_entry) list net" where
  "down_then_up h q =
     (if q \<in> set (requests_of h) then Response 200 (Inr [Inr one_entry])
      else Response 503 (Inr []))"

section \<open>Properties of the answering service\<close>

subsection \<open>Stripping\<close>

lemma py_strip_empty_iff: "py_strip q = [] \<longleftrightarrow> list_all py_isspace q"
proof
  assume "list_all py_isspace q"
  then have d: "dropWhile py_isspace q = []"
    by (simp add: list_all_iff dropWhile_eq_Nil_conv)
  show "py_strip q = []"
    by (simp only: py_strip_def d rev.simps dropWhile.simps)
next
  assume "py_strip q = []"
  then have all: "\<forall>x\<in>set (dropWhile py_isspace q). py_isspace x"
    by (simp add: py_strip_def dropWhile_eq_Nil_conv)
  have "dropWhile py_isspace q = []"
  proof (rule ccontr)
    assume ne: "dropWhile py_isspace q \<noteq> []"
    then have "\<not> py_isspace (hd (dropWhile py_isspace q))"
      by (rule hd_dropWhile)
    moreover have "hd (dropWhile py_isspace q) \<in> set (dropWhile py_isspace q)"
      using ne by simp
    ultimately show False
      using all by blast
  qed
  then show "list_all py_isspace q"
    by (simp add: list_all_iff dropWhile_eq_Nil_conv)
qed

subsection \<open>The endpoint never answers 400\<close>

text \<open>
  Whatever the chatbot and the question: when \<open>answer_question\<close> returns a result whose
  status is not \<open>success\<close>, the \<open>HTTPException(400)\<close> raised in the \<open>try\<close> block of \<open>chat\<close>
  is caught by its own \<open>except Exception\<close> and replaced by an \<open>HTTPException(500)\<close>.
\<close>

lemma chat_error_result_500:
  assumes "fst (answer_question str_exn self question) = Inr d"
      and "dict_get d ''status'' \<noteq> PStr ''success''"
  shows "fst (chat str_exn self question) =
           Inl (HTTPException 500 (PStr (str_exn (HTTPException 400 (dict_get d ''error'')))))"
  using assms by (auto simp add: chat_def chat_try_def split: prod.splits sum.splits)

lemma chat_never_400: "fst (chat str_exn self question) \<noteq> Inl (HTTPException 400 detail)"
  by (auto simp add: chat_def split: prod.splits sum.splits)

text \<open>
  Claim C1 (the HTTP layer answers a typed error result with status 400, and 500 only for
  an unexpected exception) does not hold of the code. On a ready chatbot the empty
  question makes \<open>answer_question\<close> return the typed error result
  \<open>{"error": "Please provide a valid question.", "status": "error"}\<close>, and \<open>chat\<close> answers
  it with status 500, the 400 exception being the detail text.
\<close>

theorem chat_blank_question_500:
  "fst (answer_question py_str_exn (ready_bot ''Patience is rewarded.'') []) =
     Inr [(''error'', PStr ''Please provide a valid question.''), (''status'', PStr ''error'')]
   \<and> fst (chat py_str_exn (ready_bot ''Patience is rewarded.'') []) =
     Inl (HTTPException 500 (PStr ''400: Please provide a valid question.''))"
  by (simp add: chat_def chat_try_def answer_question_def answer_try_def ready_bot_def
      py_strip_def error_result_def dict_get_def str_nat.simps)

subsection \<open>Rejected questions\<close>

text \<open>
  Claim C7: for every question that is empty or consists only of whitespace, on a
  chatbot whose chain is initialized, \<open>answer_question\<close> returns the error result
  "Please provide a valid question." and the chain is not invoked: the chatbot, with its
  log of invocations, is unchanged.
\<close>

theorem blank_question_rejected:
  assumes "qa_chain self = Some chain" and "list_all py_isspace question"
  shows "answer_question str_exn self question =
           (Inr [(''error'', PStr ''Please provide a valid question.''),
                 (''status'', PStr ''error'')], self)
         \<and> invoked (snd (answer_question str_exn self question)) = invoked self"
  using assms
  by (simp add: answer_question_def answer_try_def py_strip_empty_iff error_result_def)

theorem blank_question_rejected_witness:
  "qa_chain (ready_bot ''Patience is rewarded.'') = Some (fixed_chain ''Patience is rewarded.'')
   \<and> list_all py_isspace ''   ''
   \<and> answer_question py_str_exn (ready_bot ''Patience is rewarded.'') ''   '' =
       (Inr [(''error'', PStr ''Please provide a valid question.''),
             (''status'', PStr ''error'')], ready_bot ''Patience is rewarded.'')
   \<and> invoked (snd (answer_question py_str_exn (ready_bot ''Patience is rewarded.'') ''   ''))
       = []"
proof -
  have c: "qa_chain (ready_bot ''Patience is rewarded.'') =
             Some (fixed_chain ''Patience is rewarded.'')"
    by (simp add: ready_bot_def)
  have b: "list_all py_isspace ''   ''"
    by (simp add: py_isspace_def)
  show ?thesis
    using blank_question_rejected [OF c b, of py_str_exn] c b by (simp add: ready_bot_def)
qed

text \<open>
  Claim C8: for every question, empty or not, on a chatbot whose chain was never
  initialized, \<open>answer_question\<close> returns the error result that names the uninitialized
  chain, and nothing is invoked: the chatbot is unchanged.
\<close>

theorem uninitialized_chain_rejected:
  assumes "qa_chain self = None"
  shows "answer_question str_exn self question =
           (Inr [(''error'',
                  PStr ''QA chain not initialized. Please call setup_qa_chain() first.''),
                 (''status'', PStr ''error'')], self)
         \<and> invoked (snd (answer_question str_exn self question)) = invoked self"
  using assms by (simp add: answer_question_def error_result_def)

theorem uninitialized_chain_rejected_witness:
  "qa_chain unready_bot = None
   \<and> answer_question py_str_exn unready_bot ''What is patience?'' =
       (Inr [(''error'',
              PStr ''QA chain not initialized. Please call setup_qa_chain() first.''),
             (''status'', PStr ''error'')], unready_bot)
   \<and> invoked (snd (answer_question py_str_exn unready_bot ''What is patience?'')) = []"
proof -
  have c: "qa_chain unready_bot = None"
    by (simp add: unready_bot_def)
  show ?thesis
    using uninitialized_chain_rejected [OF c, of py_str_exn "''What is patience?''"] c
    by (simp add: unready_bot_def)
qed

subsection \<open>Validation of the generated text\<close>

text \<open>
  Claim C9 as stated (success exactly when the generated text is non-empty and at least
  10 characters long) fails: the text \<open>ok\<close> followed by ten spaces is non-empty and 12
  characters long, and the result is the error result.
\<close>

theorem short_padded_answer_counterexample:
  "''ok          '' \<noteq> [] \<and> 10 \<le> length ''ok          '' \<and>
   fst (answer_question py_str_exn (ready_bot ''ok          '') ''What is patience?'') =
     Inr [(''error'', PStr ''Generated response was invalid or too short.''),
          (''status'', PStr ''error'')]"
  by (simp add: answer_question_def answer_try_def ready_bot_def fixed_chain_def
      extract_answer_def dict_item_def answer_invalid_def py_strip_def py_isspace_def
      error_result_def)

text \<open>
  Claim C9, amended: for a question that is not blank, on an initialized chain that
  generates the text \<open>text\<close>, \<open>answer_question\<close> returns the success result carrying
  \<open>text\<close> verbatim exactly when \<open>text\<close>, stripped of the whitespace at its two ends, is at
  least 10 characters long; otherwise it returns the error result
  "Generated response was invalid or too short.".
\<close>

theorem answer_success_iff_stripped:
  assumes "qa_chain self = Some chain"
      and "\<not> list_all py_isspace question"
      and "extract_answer (chain question) = Inr (PStr text)"
  shows "fst (answer_question str_exn self question) =
           (if 10 \<le> length (py_strip text)
            then Inr [(''answer'', PStr text), (''status'', PStr ''success'')]
            else Inr [(''error'', PStr ''Generated response was invalid or too short.''),
                      (''status'', PStr ''error'')])"
proof -
  have q: "py_strip question \<noteq> []"
    using assms(2) by (simp add: py_strip_empty_iff)
  have e: "text = [] \<Longrightarrow> py_strip text = []"
    by (simp add: py_strip_def)
  show ?thesis
    using assms(1,3) q e
    by (auto simp add: answer_question_def answer_try_def answer_invalid_def
        error_result_def success_result_def Let_def)
qed

theorem answer_success_iff_stripped_witness:
  "qa_chain (ready_bot ''  Patience is rewarded.  '') =
     Some (fixed_chain ''  Patience is rewarded.  '')
   \<and> \<not> list_all py_isspace ''What is patience?''
   \<and> extract_answer (fixed_chain ''  Patience is rewarded.  '' ''What is patience?'') =
       Inr (PStr ''  Patience is rewarded.  '')
   \<and> fst (answer_question py_str_exn (ready_bot ''  Patience is rewarded.  '')
            ''What is patience?'') =
       Inr [(''answer'', PStr ''  Patience is rewarded.  ''), (''status'', PStr ''success'')]"
proof -
  have c: "qa_chain (ready_bot ''  Patience is rewarded.  '') =
             Some (fixed_chain ''  Patience is rewarded.  '')"
    by (simp add: ready_bot_def)
  have b: "\<not> list_all py_isspace ''What is patience?''"
    by (simp add: py_isspace_def)
  have x: "extract_answer (fixed_chain ''  Patience is rewarded.  '' ''What is patience?'') =
             Inr (PStr ''  Patience is rewarded.  '')"
    by (simp add: extract_answer_def fixed_chain_def dict_item_def)
  show ?thesis
    using answer_success_iff_stripped [OF c b x, of py_str_exn] c b x
    by (simp add: py_strip_def py_isspace_def)
qed

subsection \<open>Totality over the error channel\<close>

text \<open>
  Claim C10: for every question, every state of the chatbot and every behaviour of the
  chain (raising included), \<open>answer_question\<close> raises nothing and returns a dict that is
  either \<open>{"answer": a, "status": "success"}\<close> or \<open>{"error": m, "status": "error"}\<close> with a
  message \<open>m\<close>.
\<close>

theorem answer_question_total:
  "\<exists>d. fst (answer_question str_exn self question) = Inr d \<and>
       ((\<exists>a. d = [(''answer'', a), (''status'', PStr ''success'')]) \<or>
        (\<exists>m. d = [(''error'', PStr m), (''status'', PStr ''error'')]))"
  by (auto simp add: answer_question_def answer_try_def error_result_def success_result_def
      Let_def split: option.splits sum.splits prod.splits bool.splits if_splits)

section \<open>Properties of the fetch units\<close>

subsection \<open>One attempt\<close>

lemma range3: "[0..<3] = [0, Suc 0, 2]"
  by (simp add: upt_rec)

lemma quran_attempt_transient:
  assumes "spec_transient (net (events st) (quran_request surah))"
  shows "quran_attempt net mr rd surah attempt st =
           quran_retry mr rd attempt (emit (Get (quran_request surah)) st)"
  using assms
  by (cases "net (events st) (quran_request surah)")
     (auto simp add: quran_attempt_def quran_except_def Let_def)

lemma quran_attempt_ok:
  assumes "net (events st) (quran_request surah) = Response 200 (Inr eds)"
      and "quran_success surah eds (documents st) = Inr docs"
  shows "quran_attempt net mr rd surah attempt st =
           Break \<lparr>documents = docs, events = events st @ [Get (quran_request surah)]\<rparr>"
  using assms by (simp add: quran_attempt_def Let_def emit_def)

lemma page_attempt_transient:
  assumes "spec_transient (net (events st) (page_request c k (page st)))"
  shows "page_attempt py net c k mr rd attempt st =
           page_retry mr rd attempt (emit (Get (page_request c k (page st))) st)"
  using assms
  by (cases "net (events st) (page_request c k (page st))")
     (auto simp add: page_attempt_def Let_def)

lemma add_hadiths_ok:
  assumes "map fmt hadiths = map Inr texts"
  shows "add_hadiths fmt hadiths st = (None, st\<lparr>documents := documents st @ texts\<rparr>)"
  using assms
proof (induction hadiths arbitrary: texts st)
  case Nil
  then show ?case by simp
next
  case (Cons h hs)
  then obtain t ts where t: "texts = t # ts" "fmt h = Inr t" "map fmt hs = map Inr ts"
    by (cases texts) auto
  show ?case
    using Cons.IH [OF t(3), of "st\<lparr>documents := documents st @ [t]\<rparr>"] t(1,2) by simp
qed

lemma add_hadiths_raises:
  assumes "map fmt good = map Inr texts" and "fmt bad = Inl e"
  shows "add_hadiths fmt (good @ bad # rest) st =
           (Some e, st\<lparr>documents := documents st @ texts\<rparr>)"
  using assms(1)
proof (induction good arbitrary: texts st)
  case Nil
  then show ?case using assms(2) by simp
next
  case (Cons h hs)
  then obtain t ts where t: "texts = t # ts" "fmt h = Inr t" "map fmt hs = map Inr ts"
    by (cases texts) auto
  show ?case
    using Cons.IH [OF t(3), of "st\<lparr>documents := documents st @ [t]\<rparr>"] t(1,2) by simp
qed

lemma page_attempt_ok:
  assumes "net (events st) (page_request c k (page st)) = Response 200 (Inr hadiths)"
      and "map (format_hadith py c) hadiths = map Inr texts"
  shows "page_attempt py net c k mr rd attempt st =
           (if hadiths = [] then Return (emit (Get (page_request c k (page st))) st)
            else Break \<lparr>documents = documents st @ texts,
                        events = events st @ [Get (page_request c k (page st)), Sleep 1],
                        page = page st + 1\<rparr>)"
  using assms(1) add_hadiths_ok [OF assms(2), of "emit (Get (page_request c k (page st))) st"]
  by (simp add: page_attempt_def Let_def emit_def)

text \<open>
  A hadith whose extraction raises, after some that were formatted: the texts of those
  stay in the documents, and the attempt ends like every failed attempt, with the page
  number unchanged.
\<close>

lemma page_attempt_bad_hadith:
  assumes "net (events st) (page_request c k (page st)) =
             Response 200 (Inr (good @ bad # rest))"
      and "map (format_hadith py c) good = map Inr texts"
      and "format_hadith py c bad = Inl e"
  shows "page_attempt py net c k mr rd attempt st =
           page_retry mr rd attempt
             (st\<lparr>events := events st @ [Get (page_request c k (page st))],
                  documents := documents st @ texts\<rparr>)"
  using assms(1)
    add_hadiths_raises [OF assms(2,3), of rest "emit (Get (page_request c k (page st))) st"]
  by (simp add: page_attempt_def Let_def emit_def)

lemma format_hadith_null_status:
  "format_hadith py c (HadithObject [(''status'', JNull)]) = Inl (AttributeError ''NoneType'')"
  by (simp add: format_hadith_def jget_def)

lemma page_attempt_terminal:
  assumes "net (events st) (page_request c k (page st)) = Response code body"
      and "code = 401 \<or> code = 403 \<or> code = 404"
  shows "page_attempt py net c k mr rd attempt st = Return (emit (Get (page_request c k (page st))) st)"
  using assms by (auto simp add: page_attempt_def Let_def)

subsection \<open>Pairing of the two editions\<close>

lemma pair_ayahs_aligned:
  assumes "list_index eds 1 = Inr en"
      and "idx + length rest \<le> Suc (length en)"
      and "1 \<le> idx"
  shows "pair_ayahs surah eds idx rest docs =
           Inr (docs @ map (\<lambda>i. format_verse surah (idx + i) (rest ! i) (en ! (idx + i - 1)))
                         [0..<length rest])"
  using assms(2,3)
proof (induction rest arbitrary: idx docs)
  case Nil
  then show ?case by simp
next
  case (Cons a rest)
  have i: "list_index en (idx - 1) = Inr (en ! (idx - 1))"
    using Cons.prems by (simp add: list_index_def)
  have ih: "pair_ayahs surah eds (idx + 1) rest (docs @ [format_verse surah idx a (en ! (idx - 1))]) =
          Inr ((docs @ [format_verse surah idx a (en ! (idx - 1))])
               @ map (\<lambda>i. format_verse surah (idx + 1 + i) (rest ! i) (en ! (idx + 1 + i - 1)))
                   [0..<length rest])"
    using Cons.prems by (intro Cons.IH) simp_all
  have m: "map (\<lambda>i. format_verse surah (idx + i) ((a # rest) ! i) (en ! (idx + i - 1)))
             [0..<length (a # rest)] =
           format_verse surah idx a (en ! (idx - 1))
           # map (\<lambda>i. format_verse surah (idx + 1 + i) (rest ! i) (en ! (idx + 1 + i - 1)))
               [0..<length rest]"
    by (simp add: upt_conv_Cons map_Suc_upt [symmetric] del: upt_Suc)
  show ?case
    using ih by (simp only: pair_ayahs.simps assms(1) i sum.case m) simp
qed

lemma pair_ayahs_short:
  assumes "list_index eds 1 = Inr en"
      and "Suc (length en) < idx + length rest"
      and "1 \<le> idx"
      and "idx \<le> Suc (length en)"
  shows "pair_ayahs surah eds idx rest docs = Inl (IndexError ''list index out of range'')"
  using assms(2,3,4)
proof (induction rest arbitrary: idx docs)
  case Nil
  then show ?case by simp
next
  case (Cons a rest)
  show ?case
  proof (cases "idx - 1 < length en")
    case True
    then have i: "list_index en (idx - 1) = Inr (en ! (idx - 1))"
      by (simp add: list_index_def)
    have "pair_ayahs surah eds (idx + 1) rest (docs @ [format_verse surah idx a (en ! (idx - 1))])
            = Inl (IndexError ''list index out of range'')"
      using Cons.prems True by (intro Cons.IH) simp_all
    then show ?thesis
      by (simp only: pair_ayahs.simps assms(1) i sum.case)
  next
    case False
    then have i: "list_index en (idx - 1) = Inl (IndexError ''list index out of range'')"
      by (simp add: list_index_def)
    show ?thesis
      by (simp only: pair_ayahs.simps assms(1) i sum.case)
  qed
qed

text \<open>
  When the translation has at least as many ayahs as the original, ayah \<open>i\<close> of the
  original is paired with ayah \<open>i\<close> of the translation, up to the length of the original.
  When the translation is shorter, the read at its end raises.
\<close>

lemma quran_success_aligned:
  assumes "length ar \<le> length en"
  shows "quran_success surah (ar # en # others) docs =
           Inr (docs @ map (\<lambda>i. format_verse surah (Suc i) (ar ! i) (en ! i)) [0..<length ar])"
proof -
  have e: "list_index (ar # en # others) 1 = Inr en" by (simp add: list_index_def)
  show ?thesis
    using pair_ayahs_aligned [OF e, of 1 ar surah docs] assms
    by (simp add: quran_success_def list_index_def)
qed

lemma quran_success_translation_shorter:
  assumes "length en < length ar"
  shows "quran_success surah (ar # en # others) docs = Inl (IndexError ''list index out of range'')"
proof -
  have e: "list_index (ar # en # others) 1 = Inr en" by (simp add: list_index_def)
  show ?thesis
    using pair_ayahs_short [OF e, of 1 ar surah docs] assms
    by (simp add: quran_success_def list_index_def)
qed

lemma quran_surah_translation_shorter:
  assumes "net (events st) (quran_request surah) = Response 200 (Inr (ar # en # others))"
      and "length en < length ar"
  shows "quran_surah net 3 2 surah st =
           Raise (IndexError ''list index out of range'') (emit (Get (quran_request surah)) st)"
  using assms
  by (simp add: quran_surah_def range3 quran_attempt_def quran_except_def Let_def
      quran_success_translation_shorter emit_def)

lemma load_data_first_surah_translation_shorter:
  assumes "qnet [] (quran_request 1) = Response 200 (Inr (ar # en # others))"
      and "length en < length ar"
  shows "load_data qnet hnet key create_store =
           (Inl (IndexError ''list index out of range''), [Get (quran_request 1)])"
proof -
  have r: "[1..<114 + 1] = 1 # [2..<115]" by (simp add: upt_conv_Cons)
  have u: "quran_surah qnet 3 2 1 \<lparr>documents = [], events = []\<rparr> =
             Raise (IndexError ''list index out of range'')
               (emit (Get (quran_request 1)) \<lparr>documents = [], events = []\<rparr>)"
    using assms by (intro quran_surah_translation_shorter) simp_all
  show ?thesis
    unfolding load_data_def Let_def load_quran_def r
    by (simp only: for_each.simps u flow.case) (simp add: emit_def)
qed

text \<open>
  Claim C4 (editions of different lengths are paired up to the shorter length, and the
  fetch never raises) does not hold when the translation is the shorter edition. Surah 1
  answered with two ayahs of the original and one of the translation:
  \<open>data['data'][1]['ayahs'][1]\<close> raises \<open>IndexError\<close>, which the handler for
  \<open>RequestException\<close> does not catch, and \<open>load_data\<close> raises it after the first
  request, with no document kept.
\<close>

theorem load_data_translation_shorter_raises:
  "load_data (always (Response 200 (Inr [[''a1'', ''a2''], [''e1'']])))
     (always (Response 200 (Inr [Inr one_entry]))) (Some ''KEY'') keep_documents =
     (Inl (IndexError ''list index out of range''), [Get (quran_request 1)])"
  by (rule load_data_first_surah_translation_shorter
        [where ar = "[''a1'', ''a2'']" and en = "[''e1'']" and others = "[]"])
     (simp_all add: always_def)

subsection \<open>Three attempts\<close>

text \<open>
  The two retry loops of the source, run with the \<open>max_retries = 3\<close> and
  \<open>retry_delay = 2\<close> that \<open>load_data\<close> defines: transient errors on attempts 1 and 2 and a
  success on attempt 3 give the successful result; three transient errors leave the
  documents as they were. The trace is three requests with a 2-second sleep after the
  first and after the second.
\<close>

lemma quran_surah_third_ok:
  assumes "spec_transient (net (events st) (quran_request surah))"
      and "spec_transient (net (events st @ [Get (quran_request surah), Sleep 2]) (quran_request surah))"
      and "net (events st @ [Get (quran_request surah), Sleep 2, Get (quran_request surah), Sleep 2])
             (quran_request surah) = Response 200 (Inr eds)"
      and "quran_success surah eds (documents st) = Inr docs"
  shows "quran_surah net 3 2 surah st =
           Continue \<lparr>documents = docs,
                     events = events st @ [Get (quran_request surah), Sleep 2,
                                           Get (quran_request surah), Sleep 2,
                                           Get (quran_request surah)]\<rparr>"
proof -
  let ?q = "quran_request surah"
  let ?st1 = "emit (Sleep 2) (emit (Get ?q) st)"
  let ?st2 = "emit (Sleep 2) (emit (Get ?q) ?st1)"
  have e1: "events ?st1 = events st @ [Get ?q, Sleep 2]" by (simp add: emit_def)
  have e2: "events ?st2 = events st @ [Get ?q, Sleep 2, Get ?q, Sleep 2]" by (simp add: emit_def)
  have d2: "documents ?st2 = documents st" by (simp add: emit_def)
  have a0: "quran_attempt net 3 2 surah 0 st = Continue ?st1"
    using assms(1) by (simp add: quran_attempt_transient quran_retry_def)
  have a1: "quran_attempt net 3 2 surah (Suc 0) ?st1 = Continue ?st2"
    using assms(2) e1 by (simp add: quran_attempt_transient quran_retry_def)
  have a2: "quran_attempt net 3 2 surah 2 ?st2 =
              Break \<lparr>documents = docs, events = events ?st2 @ [Get ?q]\<rparr>"
    using assms(3,4) e2 d2 by (intro quran_attempt_ok) simp_all
  show ?thesis
    by (simp add: quran_surah_def range3 a0 a1 a2 e2)
qed

lemma quran_surah_all_fail:
  assumes "spec_transient (net (events st) (quran_request surah))"
      and "spec_transient (net (events st @ [Get (quran_request surah), Sleep 2]) (quran_request surah))"
      and "spec_transient (net (events st @ [Get (quran_request surah), Sleep 2, Get (quran_request surah), Sleep 2])
             (quran_request surah))"
  shows "quran_surah net 3 2 surah st =
           Continue \<lparr>documents = documents st,
                     events = events st @ [Get (quran_request surah), Sleep 2,
                                           Get (quran_request surah), Sleep 2,
                                           Get (quran_request surah)]\<rparr>"
proof -
  let ?q = "quran_request surah"
  let ?st1 = "emit (Sleep 2) (emit (Get ?q) st)"
  let ?st2 = "emit (Sleep 2) (emit (Get ?q) ?st1)"
  have e1: "events ?st1 = events st @ [Get ?q, Sleep 2]" by (simp add: emit_def)
  have e2: "events ?st2 = events st @ [Get ?q, Sleep 2, Get ?q, Sleep 2]" by (simp add: emit_def)
  have a0: "quran_attempt net 3 2 surah 0 st = Continue ?st1"
    using assms(1) by (simp add: quran_attempt_transient quran_retry_def)
  have a1: "quran_attempt net 3 2 surah (Suc 0) ?st1 = Continue ?st2"
    using assms(2) e1 by (simp add: quran_attempt_transient quran_retry_def)
  have a2: "quran_attempt net 3 2 surah 2 ?st2 = Continue (emit (Get ?q) ?st2)"
    using assms(3) e2 by (simp add: quran_attempt_transient quran_retry_def)
  show ?thesis
    by (simp add: quran_surah_def range3 a0 a1 a2) (simp add: emit_def)
qed

lemma page_unit_third_ok:
  assumes "spec_transient (net (events st) (page_request c k (page st)))"
      and "spec_transient (net (events st @ [Get (page_request c k (page st)), Sleep 2])
             (page_request c k (page st)))"
      and "net (events st @ [Get (page_request c k (page st)), Sleep 2,
                             Get (page_request c k (page st)), Sleep 2])
             (page_request c k (page st)) = Response 200 (Inr hadiths)"
      and "map (format_hadith py c) hadiths = map Inr texts"
  shows "page_unit py net c k 3 2 st =
           (if hadiths = [] then
              Return \<lparr>documents = documents st,
                      events = events st @ [Get (page_request c k (page st)), Sleep 2,
                                            Get (page_request c k (page st)), Sleep 2,
                                            Get (page_request c k (page st))],
                      page = page st\<rparr>
            else
              Continue \<lparr>documents = documents st @ texts,
                        events = events st @ [Get (page_request c k (page st)), Sleep 2,
                                              Get (page_request c k (page st)), Sleep 2,
                                              Get (page_request c k (page st)), Sleep 1],
                        page = page st + 1\<rparr>)"
proof -
  let ?q = "page_request c k (page st)"
  let ?st1 = "emit (Sleep 2) (emit (Get ?q) st)"
  let ?st2 = "emit (Sleep 2) (emit (Get ?q) ?st1)"
  have p1: "page ?st1 = page st" and p2: "page ?st2 = page st" by (simp_all add: emit_def)
  have e1: "events ?st1 = events st @ [Get ?q, Sleep 2]" by (simp add: emit_def)
  have e2: "events ?st2 = events st @ [Get ?q, Sleep 2, Get ?q, Sleep 2]" by (simp add: emit_def)
  have d2: "documents ?st2 = documents st" by (simp add: emit_def)
  have a0: "page_attempt py net c k 3 2 0 st = Continue ?st1"
    using assms(1) by (simp add: page_attempt_transient page_retry_def)
  have a1: "page_attempt py net c k 3 2 (Suc 0) ?st1 = Continue ?st2"
    using assms(2) e1 p1 by (simp add: page_attempt_transient page_retry_def)
  have r3: "net (events ?st2) (page_request c k (page ?st2)) = Response 200 (Inr hadiths)"
    using assms(3) e2 p2 by simp
  have a2: "page_attempt py net c k 3 2 2 ?st2 =
           (if hadiths = [] then Return (emit (Get (page_request c k (page ?st2))) ?st2)
            else Break \<lparr>documents = documents ?st2 @ texts,
                        events = events ?st2 @ [Get (page_request c k (page ?st2)), Sleep 1],
                        page = page ?st2 + 1\<rparr>)"
    by (rule page_attempt_ok [where net = net and st = "?st2" and hadiths = hadiths,
          OF r3 assms(4)])
  show ?thesis
    by (simp add: page_unit_def range3 a0 a1 a2) (simp add: emit_def)
qed

lemma page_unit_all_fail:
  assumes "spec_transient (net (events st) (page_request c k (page st)))"
      and "spec_transient (net (events st @ [Get (page_request c k (page st)), Sleep 2])
             (page_request c k (page st)))"
      and "spec_transient (net (events st @ [Get (page_request c k (page st)), Sleep 2,
                             Get (page_request c k (page st)), Sleep 2])
             (page_request c k (page st)))"
  shows "page_unit py net c k 3 2 st =
              Return \<lparr>documents = documents st,
                      events = events st @ [Get (page_request c k (page st)), Sleep 2,
                                            Get (page_request c k (page st)), Sleep 2,
                                            Get (page_request c k (page st))],
                      page = page st\<rparr>"
proof -
  let ?q = "page_request c k (page st)"
  let ?st1 = "emit (Sleep 2) (emit (Get ?q) st)"
  let ?st2 = "emit (Sleep 2) (emit (Get ?q) ?st1)"
  have p1: "page ?st1 = page st" and p2: "page ?st2 = page st" by (simp_all add: emit_def)
  have e1: "events ?st1 = events st @ [Get ?q, Sleep 2]" by (simp add: emit_def)
  have e2: "events ?st2 = events st @ [Get ?q, Sleep 2, Get ?q, Sleep 2]" by (simp add: emit_def)
  have a0: "page_attempt py net c k 3 2 0 st = Continue ?st1"
    using assms(1) by (simp add: page_attempt_transient page_retry_def)
  have a1: "page_attempt py net c k 3 2 (Suc 0) ?st1 = Continue ?st2"
    using assms(2) e1 p1 by (simp add: page_attempt_transient page_retry_def)
  have r3: "spec_transient (net (events ?st2) (page_request c k (page ?st2)))"
    using assms(3) e2 p2 by simp
  have a2: "page_attempt py net c k 3 2 2 ?st2 = Return (emit (Get (page_request c k (page ?st2))) ?st2)"
    using page_attempt_transient [where net = net and st = "?st2" and mr = 3 and attempt = 2, OF r3]
    by (simp add: page_retry_def)
  show ?thesis
    by (simp add: page_unit_def range3 a0 a1 a2) (simp add: emit_def)
qed

subsection \<open>Terminal statuses\<close>

lemma page_unit_first_ok:
  assumes "0 < mr"
      and "net (events st) (page_request c k (page st)) = Response 200 (Inr hadiths)"
      and "map (format_hadith py c) hadiths = map Inr texts"
  shows "page_unit py net c k mr rd st =
           (if hadiths = [] then Return (emit (Get (page_request c k (page st))) st)
            else Continue \<lparr>documents = documents st @ texts,
                           events = events st @ [Get (page_request c k (page st)), Sleep 1],
                           page = page st + 1\<rparr>)"
proof -
  have r: "[0..<mr] = 0 # [Suc 0..<mr]" using assms(1) by (simp add: upt_conv_Cons)
  show ?thesis
    unfolding page_unit_def r
    by (simp add: page_attempt_ok [where net = net and st = st and hadiths = hadiths,
          OF assms(2,3)])
qed

lemma page_unit_first_terminal:
  assumes "0 < mr"
      and "net (events st) (page_request c k (page st)) = Response code body"
      and "code = 401 \<or> code = 403 \<or> code = 404"
  shows "page_unit py net c k mr rd st = Return (emit (Get (page_request c k (page st))) st)"
proof -
  have r: "[0..<mr] = 0 # [Suc 0..<mr]" using assms(1) by (simp add: upt_conv_Cons)
  show ?thesis
    unfolding page_unit_def r
    by (simp add: page_attempt_terminal [where net = net and st = st, OF assms(2,3)])
qed

lemma fetch_all_hadiths_terminal:
  assumes "0 < mr"
      and "net evs (page_request c k 1) = Response code body"
      and "code = 401 \<or> code = 403 \<or> code = 404"
  shows "fetch_all_hadiths py net c k mr rd evs =
           Some (Return \<lparr>documents = [], events = evs @ [Get (page_request c k 1)], page = 1\<rparr>)"
proof -
  have u: "page_unit py net c k mr rd \<lparr>documents = [], events = evs, page = 1\<rparr> =
             Return \<lparr>documents = [], events = evs @ [Get (page_request c k 1)], page = 1\<rparr>"
    using page_unit_first_terminal [where net = net
        and st = "\<lparr>documents = [], events = evs, page = 1\<rparr>" and mr = mr and c = c and k = k
        and rd = rd and code = code and body = body] assms
    by (simp add: emit_def)
  show ?thesis
    unfolding fetch_all_hadiths_def by (subst while_true.simps) (simp only: u flow.case)
qed


text \<open>
  The request that \<open>load_data\<close> itself issues for a hadith collection also gives the
  collection up at once on 401, 403 and 404.
\<close>

lemma load_collection_terminal:
  assumes "net (events st) (hadith_request key c) = Response code body"
      and "code = 401 \<or> code = 403 \<or> code = 404"
  shows "load_collection net key c st = Continue (emit (Get (hadith_request key c)) st)"
  using assms by (auto simp add: load_collection_def Let_def)




subsection \<open>Pagination in the helper\<close>

text \<open>
  With a server that answers page \<open>p\<close> with the list \<open>pages p\<close>, non-empty below \<open>n\<close> and
  empty at \<open>n\<close>, the helper returns: it has requested the pages 1 to \<open>n\<close> in order, each
  non-empty page followed by the 1-second sleep, and nothing after the empty page.
\<close>

lemma while_pages:
  assumes server: "\<And>h p. net h (page_request c k p) = Response 200 (Inr (pages p))"
      and fmt: "\<And>p. map (format_hadith py c) (pages p) = map Inr (texts p)"
      and mr: "0 < mr"
      and nonempty: "\<And>p. p0 \<le> p \<Longrightarrow> p < n \<Longrightarrow> pages p \<noteq> []"
      and empty: "pages n = []"
      and le: "p0 \<le> n"
  shows "while_true (page_unit py net c k mr rd) \<lparr>documents = D, events = E, page = p0\<rparr> =
           Some (Return
             \<lparr>documents = D @ concat (map texts [p0..<n]),
              events = E @ concat (map (\<lambda>p. [Get (page_request c k p), Sleep 1]) [p0..<n])
                         @ [Get (page_request c k n)],
              page = n\<rparr>)"
  using nonempty le
proof (induction "n - p0" arbitrary: p0 D E)
  case 0
  then have eq: "p0 = n" by simp
  have tn: "texts n = []" using fmt [of n] empty by simp
  have u: "page_unit py net c k mr rd \<lparr>documents = D, events = E, page = n\<rparr> =
             Return \<lparr>documents = D, events = E @ [Get (page_request c k n)], page = n\<rparr>"
    using page_unit_first_ok [where net = net and st = "\<lparr>documents = D, events = E, page = n\<rparr>"
        and hadiths = "pages n" and texts = "texts n" and py = py and mr = mr and c = c
        and k = k and rd = rd, OF mr] server fmt empty tn
    by (simp add: emit_def)
  show ?case
    unfolding eq by (subst while_true.simps) (simp only: u flow.case, simp)
next
  case (Suc d)
  then have lt: "p0 < n" by simp
  then have ne: "pages p0 \<noteq> []" using Suc.prems(1) by simp
  let ?st' = "\<lparr>documents = D @ texts p0,
               events = E @ [Get (page_request c k p0), Sleep 1], page = Suc p0\<rparr>"
  have u: "page_unit py net c k mr rd \<lparr>documents = D, events = E, page = p0\<rparr> = Continue ?st'"
    using page_unit_first_ok [where net = net and st = "\<lparr>documents = D, events = E, page = p0\<rparr>"
        and hadiths = "pages p0" and texts = "texts p0" and py = py and mr = mr and c = c
        and k = k and rd = rd, OF mr] server fmt ne
    by simp
  have ih: "while_true (page_unit py net c k mr rd) ?st' =
           Some (Return
             \<lparr>documents = (D @ texts p0) @ concat (map texts [Suc p0..<n]),
              events = (E @ [Get (page_request c k p0), Sleep 1])
                  @ concat (map (\<lambda>p. [Get (page_request c k p), Sleep 1]) [Suc p0..<n])
                  @ [Get (page_request c k n)],
              page = n\<rparr>)"
  proof (rule Suc.hyps(1))
    show "d = n - Suc p0" using Suc.hyps(2) by simp
    show "\<And>p. Suc p0 \<le> p \<Longrightarrow> p < n \<Longrightarrow> pages p \<noteq> []" using Suc.prems(1) by simp
    show "Suc p0 \<le> n" using lt by simp
  qed
  have r: "[p0..<n] = p0 # [Suc p0..<n]" using lt by (simp add: upt_conv_Cons)
  have step: "while_true (page_unit py net c k mr rd) \<lparr>documents = D, events = E, page = p0\<rparr> =
               while_true (page_unit py net c k mr rd) ?st'"
    by (subst while_true.simps) (simp only: u flow.case)
  show ?case
    unfolding step ih r by simp
qed

lemma fetch_all_hadiths_paginates:
  assumes "\<And>h p. net h (page_request c k p) = Response 200 (Inr (pages p))"
      and "\<And>p. map (format_hadith py c) (pages p) = map Inr (texts p)"
      and "0 < mr"
      and "\<And>p. 1 \<le> p \<Longrightarrow> p < n \<Longrightarrow> pages p \<noteq> []"
      and "pages n = []"
      and "1 \<le> n"
  shows "fetch_all_hadiths py net c k mr rd evs =
           Some (Return
             \<lparr>documents = concat (map texts [1..<n]),
              events = evs @ concat (map (\<lambda>p. [Get (page_request c k p), Sleep 1]) [1..<n])
                         @ [Get (page_request c k n)],
              page = n\<rparr>)"
  unfolding fetch_all_hadiths_def
  using while_pages [where net = net and c = c and k = k and pages = pages and texts = texts
      and py = py and mr = mr and ?p0.0 = 1 and n = n and D = "[]" and E = evs and rd = rd] assms
  by simp

lemma page_server_reply:
  "page_server pages h (page_request c k p) = Response 200 (Inr (pages p))"
  by (simp add: page_server_def page_request_def dict_get_def)

lemma two_pages_texts:
  "map (format_hadith ascii_case ''sahih-bukhari'') (two_pages p) = map Inr (two_texts p)"
  by (simp add: two_pages_def two_texts_def format_hadith_def jget_def ascii_case_def
      newline_def)

lemma fetch_all_hadiths_two_pages:
  "fetch_all_hadiths ascii_case (page_server two_pages) ''sahih-bukhari'' ''KEY'' 3 2 [] =
     Some (Return
       \<lparr>documents = two_texts 1 @ two_texts 2,
        events = [Get (page_request ''sahih-bukhari'' ''KEY'' 1), Sleep 1,
                  Get (page_request ''sahih-bukhari'' ''KEY'' 2), Sleep 1,
                  Get (page_request ''sahih-bukhari'' ''KEY'' 3)],
        page = 3\<rparr>)"
proof -
  have r: "[1..<3] = [1, 2::nat]" by (simp add: upt_rec)
  have ne: "\<And>p. 1 \<le> p \<Longrightarrow> p < 3 \<Longrightarrow> two_pages p \<noteq> []"
    by (simp add: two_pages_def)
  have e: "two_pages 3 = []" by (simp add: two_pages_def)
  have "fetch_all_hadiths ascii_case (page_server two_pages) ''sahih-bukhari'' ''KEY'' 3 2 [] =
     Some (Return
       \<lparr>documents = concat (map two_texts [1..<3]),
        events = [] @ concat (map (\<lambda>p. [Get (page_request ''sahih-bukhari'' ''KEY'' p), Sleep 1]) [1..<3])
                   @ [Get (page_request ''sahih-bukhari'' ''KEY'' 3)],
        page = 3\<rparr>)"
    by (rule fetch_all_hadiths_paginates [where pages = two_pages and texts = two_texts and n = 3])
       (simp_all add: page_server_reply two_pages_texts ne e)
  then show ?thesis
    unfolding r by simp
qed

text \<open>With \<open>max_retries = 0\<close> the \<open>for\<close> loop is empty and \<open>while True\<close> never ends.\<close>

lemma while_true_Continue:
  assumes "while_true body st = Some y"
  shows "body \<noteq> Continue"
proof (rule while_true.raw_induct [where P = "\<lambda>b s r. b \<noteq> Continue", OF _ assms])
  fix f :: "('a \<Rightarrow> 'a flow) \<Rightarrow> 'a \<Rightarrow> 'a flow option" and b s r
  assume ih: "\<And>b s r. f b s = Some r \<Longrightarrow> b \<noteq> Continue"
    and step: "(case b s of Continue st' \<Rightarrow> f b st'
                | Break st' \<Rightarrow> Some (Continue st') | Return st' \<Rightarrow> Some (Return st')
                | Raise e st' \<Rightarrow> Some (Raise e st')) = Some r"
  show "b \<noteq> Continue"
  proof
    assume c: "b = Continue"
    then have "f Continue s = Some r" using step by simp
    then have "(Continue :: 'a \<Rightarrow> 'a flow) \<noteq> Continue" by (rule ih)
    then show False by simp
  qed
qed

lemma fetch_all_hadiths_no_attempts:
  "fetch_all_hadiths py net c k 0 rd evs = None"
proof -
  have u: "page_unit py net c k 0 rd = Continue"
    by (rule ext) (simp add: page_unit_def)
  show ?thesis
    using while_true_Continue [of Continue "\<lparr>documents = [], events = evs, page = 1\<rparr>"]
    unfolding fetch_all_hadiths_def u by (cases "while_true Continue \<lparr>documents = [], events = evs, page = 1\<rparr>") auto
qed

subsection \<open>The hadith requests of \<open>load_data\<close>\<close>

text \<open>
  Whatever the server answers, the hadith phase of \<open>load_data\<close> issues one request for
  the first collection and at most one for the second, and never sleeps.
\<close>

lemma add_entries_events:
  "\<exists>st'. for_each (add_entry c) hs st = Continue st' \<and> events st' = events st"
proof (induction hs arbitrary: st)
  case Nil
  then show ?case by simp
next
  case (Cons h hs)
  obtain st1 where s1: "add_entry c h st = Continue st1" and e1: "events st1 = events st"
    by (cases h) (simp_all add: add_entry_def)
  obtain st' where "for_each (add_entry c) hs st1 = Continue st'" and "events st' = events st1"
    using Cons.IH [of st1] by blast
  then show ?case
    using s1 e1 by simp
qed

lemma load_collection_events:
  "(\<exists>st'. load_collection net key c st = Continue st'
         \<and> events st' = events st @ [Get (hadith_request key c)])
   \<or> (\<exists>e st'. load_collection net key c st = Raise e st'
         \<and> events st' = events st @ [Get (hadith_request key c)])"
  using add_entries_events [of c _ "emit (Get (hadith_request key c)) st"]
  by (auto simp add: load_collection_def Let_def emit_def split: reply.splits sum.splits)

lemma load_hadith_events:
  "events (flow_state (load_hadith net key st)) =
     events st @ [Get (hadith_request key ''sahih-bukhari'')]
   \<or> events (flow_state (load_hadith net key st)) =
     events st @ [Get (hadith_request key ''sahih-bukhari''),
                  Get (hadith_request key ''sahih-muslim'')]"
proof -
  consider (c) st1 where "load_collection net key ''sahih-bukhari'' st = Continue st1"
      "events st1 = events st @ [Get (hadith_request key ''sahih-bukhari'')]"
    | (r) e st1 where "load_collection net key ''sahih-bukhari'' st = Raise e st1"
      "events st1 = events st @ [Get (hadith_request key ''sahih-bukhari'')]"
    using load_collection_events [of net key "''sahih-bukhari''" st] by blast
  then show ?thesis
  proof cases
    case c
    show ?thesis
      using load_collection_events [of net key "''sahih-muslim''" st1] c
      by (auto simp add: load_hadith_def collections_def)
  next
    case r
    then show ?thesis by (simp add: load_hadith_def collections_def)
  qed
qed

lemma requests_of_append: "requests_of (xs @ ys) = requests_of xs @ requests_of ys"
  by (induction xs rule: requests_of.induct) simp_all

lemma requests_of_gets: "requests_of (map (Get \<circ> f) xs) = map f xs"
  by (induction xs) simp_all

text \<open>Every request of the hadith phase carries the filter \<open>status = sahih\<close>.\<close>

lemma load_hadith_status_always_sahih:
  "r \<in> set (requests_of (events (flow_state (load_hadith net key st)))) \<Longrightarrow>
   r \<notin> set (requests_of (events st)) \<Longrightarrow>
   map_of (params r) ''status'' = Some (PStr ''sahih'')"
  using load_hadith_events [of net key st]
  by (auto simp add: requests_of_append hadith_request_def)

lemma load_data_hadith_phase:
  assumes "load_quran qnet 3 2 \<lparr>documents = [], events = []\<rparr> = Continue st"
      and "key \<noteq> []"
  shows "snd (load_data qnet hnet (Some key) create_store) =
           events (flow_state (load_hadith hnet key st))"
  using assms by (simp add: load_data_def Let_def split: flow.splits sum.splits)

lemma quran_surah_first_ok:
  assumes "net (events st) (quran_request surah) = Response 200 (Inr eds)"
      and "quran_success surah eds (documents st) = Inr docs"
  shows "quran_surah net 3 2 surah st =
           Continue \<lparr>documents = docs, events = events st @ [Get (quran_request surah)]\<rparr>"
  by (simp add: quran_surah_def range3
      quran_attempt_ok [where net = net and st = st and eds = eds and docs = docs, OF assms])

lemma quran_surahs_all_ok:
  assumes "\<And>h s. net h (quran_request s) = Response 200 (Inr [ar, en])"
      and "length ar \<le> length en"
  shows "for_each (quran_surah net 3 2) ss st =
           Continue
             \<lparr>documents = documents st
                  @ concat (map (\<lambda>s. map (\<lambda>i. format_verse s (Suc i) (ar ! i) (en ! i))
                                        [0..<length ar]) ss),
              events = events st @ map (Get \<circ> quran_request) ss\<rparr>"
proof (induction ss arbitrary: st)
  case Nil
  then show ?case by simp
next
  case (Cons s ss)
  let ?st1 = "\<lparr>documents = documents st
                  @ map (\<lambda>i. format_verse s (Suc i) (ar ! i) (en ! i)) [0..<length ar],
               events = events st @ [Get (quran_request s)]\<rparr>"
  have u: "quran_surah net 3 2 s st = Continue ?st1"
    using quran_surah_first_ok [where net = net and st = st and surah = s and eds = "[ar, en]"]
      assms(1) quran_success_aligned [OF assms(2), of s "[]" "documents st"]
    by simp
  show ?case
    by (simp only: for_each.simps u flow.case Cons.IH) simp
qed

lemma load_data_all_ok:
  assumes "\<And>h s. qnet h (quran_request s) = Response 200 (Inr [ar, en])"
      and "length ar \<le> length en"
      and "key \<noteq> []"
  shows "snd (load_data qnet hnet (Some key) create_store) =
           events (flow_state (load_hadith hnet key
             \<lparr>documents = concat (map (\<lambda>s. map (\<lambda>i. format_verse s (Suc i) (ar ! i) (en ! i))
                                        [0..<length ar]) [1..<115]),
              events = map (Get \<circ> quran_request) [1..<115]\<rparr>))"
proof -
  have q: "load_quran qnet 3 2 \<lparr>documents = [], events = []\<rparr> =
        Continue \<lparr>documents = concat (map (\<lambda>s. map (\<lambda>i. format_verse s (Suc i) (ar ! i) (en ! i))
                                        [0..<length ar]) [1..<115]),
              events = map (Get \<circ> quran_request) [1..<115]\<rparr>"
    unfolding load_quran_def
    using quran_surahs_all_ok [where net = qnet and ar = ar and en = en
        and st = "\<lparr>documents = [], events = []\<rparr>" and ss = "[1..<114 + 1]"] assms(1,2)
    by simp
  show ?thesis
    by (rule load_data_hadith_phase [OF q assms(3)])
qed

lemma load_hadith_page_always:
  "load_hadith (always (Response 200 (Inr [Inr one_entry]))) ''KEY'' st =
     Continue \<lparr>documents = documents st @ [format_entry ''sahih-bukhari'' one_entry,
                                           format_entry ''sahih-muslim'' one_entry],
               events = events st @ [Get (hadith_request ''KEY'' ''sahih-bukhari''),
                                     Get (hadith_request ''KEY'' ''sahih-muslim'')]\<rparr>"
  by (simp add: load_hadith_def collections_def load_collection_def always_def emit_def
      add_entry_def Let_def)

text \<open>
  A complete run: a Quran API that serves every surah with one ayah in each edition, and
  a hadith API that answers every request with status 200 and one hadith.
\<close>

lemma load_data_trace_all_ok:
  "snd (load_data (always (Response 200 (Inr [[''a1''], [''e1'']])))
          (always (Response 200 (Inr [Inr one_entry]))) (Some ''KEY'') keep_documents) =
     map (Get \<circ> quran_request) [1..<115]
     @ [Get (hadith_request ''KEY'' ''sahih-bukhari''),
        Get (hadith_request ''KEY'' ''sahih-muslim'')]"
  by (subst load_data_all_ok [where ar = "[''a1'']" and en = "[''e1'']"])
     (simp_all add: always_def load_hadith_page_always)

text \<open>A collection whose only request meets a 503 is not asked again.\<close>

lemma load_hadith_single_attempt:
  "load_hadith (scripted [Response 503 (Inr []), Response 200 (Inr [Inr one_entry])]
                  (Response 200 (Inr [Inr one_entry]))) ''KEY'' start =
     Continue \<lparr>documents = [format_entry ''sahih-muslim'' one_entry],
               events = [Get (hadith_request ''KEY'' ''sahih-bukhari''),
                         Get (hadith_request ''KEY'' ''sahih-muslim'')]\<rparr>"
  by (simp add: load_hadith_def collections_def load_collection_def scripted_def emit_def
      add_entry_def Let_def start_def)

text \<open>
  A request of the hadith phase that meets a status other than 200 ends its collection
  with that one request, and one that meets a network failure makes \<open>load_data\<close> raise:
  there is no second attempt and no sleep.
\<close>

lemma load_collection_not_200:
  assumes "net (events st) (hadith_request key c) = Response code body" and "code \<noteq> 200"
  shows "load_collection net key c st = Continue (emit (Get (hadith_request key c)) st)"
  using assms by (simp add: load_collection_def Let_def)

lemma load_collection_network_failure:
  assumes "net (events st) (hadith_request key c) = Fails e"
  shows "load_collection net key c st = Raise e (emit (Get (hadith_request key c)) st)"
  using assms by (simp add: load_collection_def Let_def)

lemma hadith_request_not_quran: "hadith_request key c \<noteq> quran_request s"
  by (simp add: hadith_request_def quran_request_def)

lemma load_hadith_down_then_up:
  assumes "hadith_request ''KEY'' ''sahih-bukhari'' \<notin> set (requests_of (events st))"
      and "hadith_request ''KEY'' ''sahih-muslim'' \<notin> set (requests_of (events st))"
  shows "load_hadith down_then_up ''KEY'' st =
           Continue (st\<lparr>events := events st @ [Get (hadith_request ''KEY'' ''sahih-bukhari''),
                                                Get (hadith_request ''KEY'' ''sahih-muslim'')]\<rparr>)"
proof -
  have ne: "hadith_request ''KEY'' ''sahih-muslim'' \<noteq> hadith_request ''KEY'' ''sahih-bukhari''"
    by (simp add: hadith_request_def)
  show ?thesis
    using assms ne
    by (simp add: load_hadith_def collections_def load_collection_def down_then_up_def
        emit_def Let_def requests_of_append)
qed

text \<open>
  Claim C5 (for every fetch unit, transient errors on attempts 1 and 2 and a success on
  attempt 3 give the successful result, the bound being 3 attempts with a 2-second delay)
  does not hold of the hadith fetch that runs. The hadith API here answers a request it
  sees for the first time with 503 and the same request, asked again, with 200 and one
  hadith: a second attempt would succeed. The complete run of \<open>load_data\<close> asks once for
  each collection, never sleeps and never asks again. The Quran loop and the helper
  \<open>fetch_all_hadiths\<close> hold the retry loop the claim describes, and \<open>load_data\<close> does not
  call the helper.
\<close>

theorem load_data_hadith_not_retried:
  "down_then_up [] (hadith_request ''KEY'' ''sahih-bukhari'') = Response 503 (Inr [])
   \<and> down_then_up [Get (hadith_request ''KEY'' ''sahih-bukhari''), Sleep 2]
        (hadith_request ''KEY'' ''sahih-bukhari'') = Response 200 (Inr [Inr one_entry])
   \<and> snd (load_data (always (Response 200 (Inr [[''a1''], [''e1'']]))) down_then_up
            (Some ''KEY'') keep_documents) =
       map (Get \<circ> quran_request) [1..<115]
       @ [Get (hadith_request ''KEY'' ''sahih-bukhari''),
          Get (hadith_request ''KEY'' ''sahih-muslim'')]"
proof -
  have a: "down_then_up [] (hadith_request ''KEY'' ''sahih-bukhari'') = Response 503 (Inr [])"
    by (simp add: down_then_up_def)
  have b: "down_then_up [Get (hadith_request ''KEY'' ''sahih-bukhari''), Sleep 2]
             (hadith_request ''KEY'' ''sahih-bukhari'') = Response 200 (Inr [Inr one_entry])"
    by (simp add: down_then_up_def)
  have c: "snd (load_data (always (Response 200 (Inr [[''a1''], [''e1'']]))) down_then_up
            (Some ''KEY'') keep_documents) =
       map (Get \<circ> quran_request) [1..<115]
       @ [Get (hadith_request ''KEY'' ''sahih-bukhari''),
          Get (hadith_request ''KEY'' ''sahih-muslim'')]"
  proof -
    let ?st = "\<lparr>documents = concat (map (\<lambda>s. map (\<lambda>i. format_verse s (Suc i)
                                           ([''a1''] ! i) ([''e1''] ! i)) [0..<length [''a1'']])
                                        [1..<115]),
                events = map (Get \<circ> quran_request) [1..<115]\<rparr>"
    have n1: "hadith_request ''KEY'' ''sahih-bukhari'' \<notin> set (requests_of (events ?st))"
      by (auto simp add: requests_of_gets hadith_request_not_quran)
    have n2: "hadith_request ''KEY'' ''sahih-muslim'' \<notin> set (requests_of (events ?st))"
      by (auto simp add: requests_of_gets hadith_request_not_quran)
    have h: "load_hadith down_then_up ''KEY'' ?st =
               Continue (?st\<lparr>events := events ?st
                                  @ [Get (hadith_request ''KEY'' ''sahih-bukhari''),
                                     Get (hadith_request ''KEY'' ''sahih-muslim'')]\<rparr>)"
      by (rule load_hadith_down_then_up [OF n1 n2])
    have "snd (load_data (always (Response 200 (Inr [[''a1''], [''e1'']]))) down_then_up
            (Some ''KEY'') keep_documents) =
          events (flow_state (load_hadith down_then_up ''KEY'' ?st))"
      by (rule load_data_all_ok) (simp_all add: always_def)
    then show ?thesis
      unfolding h by simp
  qed
  show ?thesis
    using a b c by (intro conjI)
qed

text \<open>
  Claim C2 (after a non-empty page the next page is requested, until a page yields zero
  records; more than one page whenever page 1 is non-empty) does not hold of the
  ingestion that runs. With a Quran API that serves every surah and a hadith API that
  answers every request with status 200 and a non-empty list, the complete run of
  \<open>load_data\<close> issues one request per surah and then exactly one request per collection,
  neither with a \<open>page\<close> parameter. The helper \<open>fetch_all_hadiths\<close> paginates as the claim
  says, and \<open>load_data\<close> does not call it.
\<close>

theorem load_data_one_page_per_collection:
  "snd (load_data (always (Response 200 (Inr [[''a1''], [''e1'']])))
          (always (Response 200 (Inr [Inr one_entry]))) (Some ''KEY'') keep_documents) =
     map (Get \<circ> quran_request) [1..<115]
     @ [Get (hadith_request ''KEY'' ''sahih-bukhari''),
        Get (hadith_request ''KEY'' ''sahih-muslim'')]
   \<and> map_of (params (hadith_request ''KEY'' ''sahih-bukhari'')) ''page'' = None
   \<and> map_of (params (hadith_request ''KEY'' ''sahih-muslim'')) ''page'' = None"
  by (simp add: load_data_trace_all_ok) (simp add: hadith_request_def)

text \<open>
  Claim C6 (every request to the hadith API during ingestion carries the status filter
  for both grades, sahih and hasan) does not hold of the ingestion that runs: the
  two hadith requests of the complete run of \<open>load_data\<close>, which follow its 114 Quran
  requests, carry \<open>status = sahih\<close>. Only the requests of the helper, which nothing
  calls, carry \<open>sahih,hasan\<close>.
\<close>

theorem load_data_status_filter:
  "map params (drop 114 (requests_of (snd
     (load_data (always (Response 200 (Inr [[''a1''], [''e1'']])))
        (always (Response 200 (Inr [Inr one_entry]))) (Some ''KEY'') keep_documents)))) =
     [[(''apiKey'', PStr ''KEY''), (''book'', PStr ''sahih-bukhari''),
       (''status'', PStr ''sahih'')],
      [(''apiKey'', PStr ''KEY''), (''book'', PStr ''sahih-muslim''),
       (''status'', PStr ''sahih'')]]"
  by (simp add: load_data_trace_all_ok requests_of_append requests_of_gets hadith_request_def)

end
